theory Spec2Isabelle
  imports Main "HOL-Library.AList"
begin

section \<open>Graph assembly of langflow: \<open>langflow/graph/graph/base.py\<close>\<close>

subsection \<open>Python values and errors\<close>

text \<open>
  The constructor of \<open>Graph\<close> receives already parsed JSON: by its annotation a node is a
  dictionary whose values are strings, lists or further dictionaries. A dictionary is
  kept as the list of its items, read with \<open>map_of\<close>.
\<close>

datatype pyval = PStr string | PList "pyval list" | PDict "(string \<times> pyval) list"

datatype py_error = KeyError string | TypeError | ValueError string

text \<open>\<open>v[k]\<close> for a string key \<open>k\<close>: a dictionary raises KeyError on a missing key;
  a string or a list raises TypeError (their indices must be integers).\<close>

fun getitem :: "pyval \<Rightarrow> string \<Rightarrow> py_error + pyval" where
  "getitem (PDict kvs) k = (case map_of kvs k of None \<Rightarrow> Inl (KeyError k) | Some v \<Rightarrow> Inr v)"
| "getitem (PStr s) k = Inl TypeError"
| "getitem (PList xs) k = Inl TypeError"

subsection \<open>Nodes, edges and the graph\<close>

text \<open>
  Modelled from the spec: the classes \<open>Node\<close>, \<open>FileToolNode\<close>, \<open>LLMNode\<close>,
  \<open>ToolkitNode\<close> (\<open>langflow.graph.node\<close>) and \<open>Edge\<close> (\<open>langflow.graph.edge.base\<close>)
  are imported by \<open>base.py\<close> and are not part of the sources. The spec gives a node
  its variant, its \<open>id\<close>, the \<open>data\<close> mapping of its NodeSpec, a \<open>params\<close> mapping
  and its collection of incident edges; an edge holds references to its two endpoints.

  Node objects are shared and mutated through several references (the node list, the
  endpoints of edges, \<open>params\<close>), so they live in a store: the list of all Node objects
  in the order \<open>_build_nodes\<close> creates them, a reference being a position in it.
  Two references denote the same object iff they are equal.
\<close>

datatype node_class = Node | FileToolNode | LLMNode | ToolkitNode

type_synonym ref = nat

record edge =
  source :: ref
  target :: ref

datatype param = NodeRef ref | Value pyval

record node =
  cls :: node_class
  node_id :: pyval
  data :: pyval
  params :: "(string \<times> param) list"
  node_edges :: "edge list"

record graph =
  heap :: "node list"
  nodes :: "ref list"
  edges :: "edge list"

text \<open>
  Modelled from the spec: \<open>Node.__init__\<close> is not part of the sources. It reads \<open>id\<close>
  and \<open>data\<close> of the NodeSpec and starts with no parameters and no edges.
\<close>

definition Node_init :: "node_class \<Rightarrow> pyval \<Rightarrow> py_error + node" where
  "Node_init c spec =
     (case getitem spec ''id'' of Inl e \<Rightarrow> Inl e | Inr i \<Rightarrow>
       (case getitem spec ''data'' of Inl e \<Rightarrow> Inl e | Inr d \<Rightarrow>
          Inr \<lparr>cls = c, node_id = i, data = d, params = [], node_edges = []\<rparr>))"

text \<open>Modelled from the spec: \<open>Node.add_edge\<close> appends the edge to the node's collection.\<close>

definition add_edge :: "edge \<Rightarrow> node \<Rightarrow> node" where
  "add_edge e n = n\<lparr>node_edges := node_edges n @ [e]\<rparr>"

subsection \<open>\<open>Graph._get_node_class\<close>\<close>

text \<open>
  \<open>FILE_TOOLS\<close> and \<open>NODE_TYPE_MAP\<close> are constants of other modules and are taken as
  parameters: the collection of file-tool type names, and the items of the table from
  type names to node classes. \<open>x in d\<close> hashes \<open>x\<close>: a list or a dictionary raises
  TypeError there, which the model keeps although the annotation promises strings.
\<close>

definition get_node_class ::
  "string list \<Rightarrow> (string \<times> node_class) list \<Rightarrow> pyval \<Rightarrow> pyval \<Rightarrow> py_error + node_class" where
  "get_node_class FILE_TOOLS NODE_TYPE_MAP node_type node_lc_type =
     (case node_type of
        PStr t \<Rightarrow>
          if t \<in> set FILE_TOOLS then Inr FileToolNode
          else (case map_of NODE_TYPE_MAP t of
                  Some c \<Rightarrow> Inr c
                | None \<Rightarrow>
                   (case node_lc_type of
                      PStr l \<Rightarrow> (case map_of NODE_TYPE_MAP l of Some c \<Rightarrow> Inr c | None \<Rightarrow> Inr Node)
                    | PList _ \<Rightarrow> Inl TypeError
                    | PDict _ \<Rightarrow> Inl TypeError))
      | PList _ \<Rightarrow> Inl TypeError
      | PDict _ \<Rightarrow> Inl TypeError)"

subsection \<open>\<open>Graph._build_nodes\<close>\<close>

text \<open>The expression \<open>node_data["node"]["template"]["_type"]\<close>.\<close>

definition lc_type :: "pyval \<Rightarrow> py_error + pyval" where
  "lc_type node_data =
     (case getitem node_data ''node'' of Inl e \<Rightarrow> Inl e | Inr nd \<Rightarrow>
       (case getitem nd ''template'' of Inl e \<Rightarrow> Inl e | Inr tp \<Rightarrow>
          getitem tp ''_type''))"

text \<open>The body of the loop, for one NodeSpec.\<close>

definition build_node ::
  "string list \<Rightarrow> (string \<times> node_class) list \<Rightarrow> pyval \<Rightarrow> py_error + node" where
  "build_node FILE_TOOLS NODE_TYPE_MAP spec =
     (case getitem spec ''data'' of Inl e \<Rightarrow> Inl e | Inr node_data \<Rightarrow>
       (case getitem node_data ''type'' of Inl e \<Rightarrow> Inl e | Inr node_type \<Rightarrow>
         (case lc_type node_data of Inl e \<Rightarrow> Inl e | Inr node_lc_type \<Rightarrow>
           (case get_node_class FILE_TOOLS NODE_TYPE_MAP node_type node_lc_type of
              Inl e \<Rightarrow> Inl e
            | Inr NodeClass \<Rightarrow> Node_init NodeClass spec))))"

text \<open>The loop appends in input order and stops at the first exception.\<close>

fun build_nodes ::
  "string list \<Rightarrow> (string \<times> node_class) list \<Rightarrow> pyval list \<Rightarrow> py_error + node list" where
  "build_nodes FILE_TOOLS NODE_TYPE_MAP [] = Inr []"
| "build_nodes FILE_TOOLS NODE_TYPE_MAP (spec # specs) =
     (case build_node FILE_TOOLS NODE_TYPE_MAP spec of
        Inl e \<Rightarrow> Inl e
      | Inr n \<Rightarrow>
         (case build_nodes FILE_TOOLS NODE_TYPE_MAP specs of
            Inl e \<Rightarrow> Inl e
          | Inr ns \<Rightarrow> Inr (n # ns)))"

subsection \<open>\<open>Graph.get_node\<close> and \<open>Graph._build_edges\<close>\<close>

text \<open>\<open>next((node for node in self.nodes if node.id == node_id), None)\<close>; a string
  equals no list and no dictionary.\<close>

definition get_node :: "graph \<Rightarrow> string \<Rightarrow> ref option" where
  "get_node g i = find (\<lambda>r. node_id (heap g ! r) = PStr i) (nodes g)"

text \<open>An EdgeSpec is a \<open>Dict[str, str]\<close>. Both lookups come before both checks.\<close>

fun build_edges :: "graph \<Rightarrow> (string \<times> string) list list \<Rightarrow> py_error + edge list" where
  "build_edges g [] = Inr []"
| "build_edges g (e # es) =
     (case map_of e ''source'' of None \<Rightarrow> Inl (KeyError ''source'') | Some s \<Rightarrow>
       (case map_of e ''target'' of None \<Rightarrow> Inl (KeyError ''target'') | Some t \<Rightarrow>
         (case get_node g s of
            None \<Rightarrow> Inl (ValueError (''Source node '' @ s @ '' not found''))
          | Some src \<Rightarrow>
             (case get_node g t of
                None \<Rightarrow> Inl (ValueError (''Target node '' @ t @ '' not found''))
              | Some tgt \<Rightarrow>
                 (case build_edges g es of
                    Inl err \<Rightarrow> Inl err
                  | Inr rest \<Rightarrow> Inr (\<lparr>source = src, target = tgt\<rparr> # rest))))))"

subsection \<open>\<open>Graph._build_graph\<close>: linking, parameters, pruning\<close>

text \<open>\<open>for edge in self.edges: edge.source.add_edge(edge); edge.target.add_edge(edge)\<close>.
  The endpoints of a built edge are results of \<open>get_node\<close>, hence positions of the store.\<close>

fun link_edges :: "edge list \<Rightarrow> node list \<Rightarrow> node list" where
  "link_edges [] h = h"
| "link_edges (e # es) h =
     (let h1 = h[source e := add_edge e (h ! source e)];
          h2 = h1[target e := add_edge e (h1 ! target e)]
      in link_edges es h2)"

text \<open>
  \<open>Node._build_params\<close> is opaque: it is a parameter \<open>bp\<close>, which computes the new
  \<open>params\<close> of the node at a reference from the store. The first loop of
  \<open>_build_node_params\<close> threads the store and \<open>llm_node\<close>.
\<close>

type_synonym build_params = "node list \<Rightarrow> ref \<Rightarrow> (string \<times> param) list"

fun build_params_loop ::
  "build_params \<Rightarrow> ref list \<Rightarrow> node list \<Rightarrow> ref option \<Rightarrow> node list \<times> ref option" where
  "build_params_loop bp [] h llm_node = (h, llm_node)"
| "build_params_loop bp (r # rs) h llm_node =
     (let h' = h[r := (h ! r)\<lparr>params := bp h r\<rparr>]
      in build_params_loop bp rs h' (if cls (h' ! r) = LLMNode then Some r else llm_node))"

text \<open>The second loop: \<open>node.params["llm"] = llm_node\<close> for every ToolkitNode.\<close>

fun inject_llm :: "ref \<Rightarrow> ref list \<Rightarrow> node list \<Rightarrow> node list" where
  "inject_llm l [] h = h"
| "inject_llm l (r # rs) h =
     inject_llm l rs
       (if cls (h ! r) = ToolkitNode
        then h[r := (h ! r)\<lparr>params := AList.update ''llm'' (NodeRef l) (params (h ! r))\<rparr>]
        else h)"

definition build_node_params :: "build_params \<Rightarrow> graph \<Rightarrow> graph" where
  "build_node_params bp g =
     (case build_params_loop bp (nodes g) (heap g) None of
        (h, llm_node) \<Rightarrow>
          (case llm_node of
             None \<Rightarrow> g\<lparr>heap := h\<rparr>
           | Some l \<Rightarrow> g\<lparr>heap := inject_llm l (nodes g) h\<rparr>))"

definition validate_node :: "graph \<Rightarrow> ref \<Rightarrow> bool" where
  "validate_node g r = (length (node_edges (heap g ! r)) > 0)"

definition remove_invalid_nodes :: "graph \<Rightarrow> graph" where
  "remove_invalid_nodes g =
     g\<lparr>nodes := filter (\<lambda>r. validate_node g r \<or> (length (nodes g) = 1 \<and> length (edges g) = 0))
                        (nodes g)\<rparr>"

text \<open>The graph after nodes, edges and links are built (the first half of \<open>_build_graph\<close>).\<close>

definition build_linked ::
  "string list \<Rightarrow> (string \<times> node_class) list \<Rightarrow> pyval list \<Rightarrow> (string \<times> string) list list
     \<Rightarrow> py_error + graph" where
  "build_linked FILE_TOOLS NODE_TYPE_MAP nodes_in edges_in =
     (case build_nodes FILE_TOOLS NODE_TYPE_MAP nodes_in of
        Inl e \<Rightarrow> Inl e
      | Inr h \<Rightarrow>
         (let g = \<lparr>heap = h, nodes = [0..<length h], edges = []\<rparr>
          in case build_edges g edges_in of
               Inl e \<Rightarrow> Inl e
             | Inr es \<Rightarrow> Inr (g\<lparr>heap := link_edges es h, edges := es\<rparr>)))"

text \<open>\<open>Graph.__init__\<close>, that is \<open>_build_graph\<close>.\<close>

definition Graph_init ::
  "string list \<Rightarrow> (string \<times> node_class) list \<Rightarrow> build_params \<Rightarrow> pyval list
     \<Rightarrow> (string \<times> string) list list \<Rightarrow> py_error + graph" where
  "Graph_init FILE_TOOLS NODE_TYPE_MAP bp nodes_in edges_in =
     (case build_linked FILE_TOOLS NODE_TYPE_MAP nodes_in edges_in of
        Inl e \<Rightarrow> Inl e
      | Inr g \<Rightarrow> Inr (remove_invalid_nodes (build_node_params bp g)))"

subsection \<open>Queries\<close>

text \<open>
  Modelled from the spec: \<open>edge.source == node\<close> and the keys of the dictionary of
  neighbours compare Node objects. The spec gives \<open>Node\<close> no comparison of its own, so
  this is Python's comparison of objects, by identity: equality of references. Where the
  ids of a graph are unique, as the spec requires of NodeSpecs, a comparison by \<open>id\<close>
  would agree with it.
\<close>

definition get_nodes_with_target :: "graph \<Rightarrow> ref \<Rightarrow> ref list" where
  "get_nodes_with_target g n = map source (filter (\<lambda>e. target e = n) (edges g))"

text \<open>\<open>if neighbor not in neighbors: neighbors[neighbor] = 0\<close>, then
  \<open>neighbors[neighbor] += 1\<close>.\<close>

definition tally :: "ref \<Rightarrow> (ref \<rightharpoonup> int) \<Rightarrow> (ref \<rightharpoonup> int)" where
  "tally neighbor neighbors =
     (let neighbors1 = (if neighbors neighbor = None then neighbors(neighbor \<mapsto> 0) else neighbors)
      in case neighbors1 neighbor of
           None \<Rightarrow> neighbors1
         | Some c \<Rightarrow> neighbors1(neighbor \<mapsto> c + 1))"

fun neighbors_loop :: "ref \<Rightarrow> edge list \<Rightarrow> (ref \<rightharpoonup> int) \<Rightarrow> (ref \<rightharpoonup> int)" where
  "neighbors_loop n [] neighbors = neighbors"
| "neighbors_loop n (e # es) neighbors =
     (if source e = n then neighbors_loop n es (tally (target e) neighbors)
      else if target e = n then neighbors_loop n es (tally (source e) neighbors)
      else neighbors_loop n es neighbors)"

definition get_node_neighbors :: "graph \<Rightarrow> ref \<Rightarrow> (ref \<rightharpoonup> int)" where
  "get_node_neighbors g n = neighbors_loop n (edges g) Map.empty"





subsection \<open>Vocabulary of the properties\<close>

text \<open>The occurrences of an edge in the collection of the node at \<open>r\<close> after linking:
  one as its source and one as its target.\<close>

definition incident :: "ref \<Rightarrow> edge \<Rightarrow> edge list" where
  "incident r e = (if source e = r then [e] else []) @ (if target e = r then [e] else [])"

text \<open>The edges that touch \<open>n\<close> and have \<open>m\<close> at the other end.\<close>

definition edges_between :: "graph \<Rightarrow> ref \<Rightarrow> ref \<Rightarrow> edge list" where
  "edges_between g n m =
     filter (\<lambda>e. (source e = n \<and> target e = m) \<or> (target e = n \<and> source e = m)) (edges g)"

definition self_loops :: "graph \<Rightarrow> ref \<Rightarrow> edge list" where
  "self_loops g n = filter (\<lambda>e. source e = n \<and> target e = n) (edges g)"

text \<open>The LanguageModel nodes of a store, in the order of the node list that
  \<open>_build_nodes\<close> returns.\<close>

definition llm_nodes :: "node list \<Rightarrow> ref list" where
  "llm_nodes h = filter (\<lambda>r. cls (h ! r) = LLMNode) [0..<length h]"

text \<open>Some NodeSpec of the list has the string \<open>i\<close> as its \<open>id\<close>.\<close>

definition declares_id :: "pyval list \<Rightarrow> string \<Rightarrow> bool" where
  "declares_id specs i = (Inr (PStr i) \<in> set (map (\<lambda>spec. getitem spec ''id'') specs))"

text \<open>Both ends of an EdgeSpec are present and are ids of NodeSpecs.\<close>

definition edge_resolves :: "pyval list \<Rightarrow> (string \<times> string) list \<Rightarrow> bool" where
  "edge_resolves specs e =
     (case map_of e ''source'' of
        None \<Rightarrow> False
      | Some s \<Rightarrow>
         (case map_of e ''target'' of
            None \<Rightarrow> False
          | Some t \<Rightarrow> declares_id specs s \<and> declares_id specs t))"

subsection \<open>Concrete inputs\<close>

text \<open>A parameter-build step that sets no parameter.\<close>

definition no_params :: build_params where
  "no_params h r = []"

definition example_FILE_TOOLS :: "string list" where
  "example_FILE_TOOLS = [''JsonSpec'']"

definition example_NODE_TYPE_MAP :: "(string \<times> node_class) list" where
  "example_NODE_TYPE_MAP =
     [(''OpenAI'', LLMNode), (''ChatOpenAI'', LLMNode), (''JsonToolkit'', ToolkitNode)]"

text \<open>A NodeSpec with every field that \<open>base.py\<close> reads, and its \<open>data\<close>.\<close>

definition node_data :: "string \<Rightarrow> string \<Rightarrow> string list \<Rightarrow> pyval" where
  "node_data t l bcs =
     PDict [(''type'', PStr t),
            (''node'', PDict [(''template'', PDict [(''_type'', PStr l)]),
                              (''base_classes'', PList (map PStr bcs))])]"

definition node_spec :: "string \<Rightarrow> string \<Rightarrow> string \<Rightarrow> string list \<Rightarrow> pyval" where
  "node_spec i t l bcs = PDict [(''id'', PStr i), (''data'', node_data t l bcs)]"

definition edge_spec :: "string \<Rightarrow> string \<Rightarrow> (string \<times> string) list" where
  "edge_spec s t = [(''source'', s), (''target'', t)]"

text \<open>
  A language model \<open>A\<close> and a toolkit \<open>B\<close> joined by two edges, a loop at \<open>B\<close>, and
  an unconnected prompt \<open>C\<close>; and the graph that the constructor builds from them.
\<close>

definition example_nodes_in :: "pyval list" where
  "example_nodes_in =
     [node_spec ''A'' ''OpenAI'' ''openai'' [''BaseLLM''],
      node_spec ''B'' ''JsonToolkit'' ''json_toolkit'' [''BaseToolkit''],
      node_spec ''C'' ''PromptTemplate'' ''prompt'' [''BasePromptTemplate'']]"

definition example_edges_in :: "(string \<times> string) list list" where
  "example_edges_in = [edge_spec ''A'' ''B'', edge_spec ''B'' ''A'', edge_spec ''B'' ''B'']"

definition example_graph :: graph where
  "example_graph =
     \<lparr>heap =
        [\<lparr>cls = LLMNode, node_id = PStr ''A'', data = node_data ''OpenAI'' ''openai'' [''BaseLLM''],
          params = [],
          node_edges = [\<lparr>source = 0, target = 1\<rparr>, \<lparr>source = 1, target = 0\<rparr>]\<rparr>,
         \<lparr>cls = ToolkitNode, node_id = PStr ''B'',
          data = node_data ''JsonToolkit'' ''json_toolkit'' [''BaseToolkit''],
          params = [(''llm'', NodeRef 0)],
          node_edges = [\<lparr>source = 0, target = 1\<rparr>, \<lparr>source = 1, target = 0\<rparr>,
                        \<lparr>source = 1, target = 1\<rparr>, \<lparr>source = 1, target = 1\<rparr>]\<rparr>,
         \<lparr>cls = Node, node_id = PStr ''C'',
          data = node_data ''PromptTemplate'' ''prompt'' [''BasePromptTemplate''],
          params = [], node_edges = []\<rparr>],
      nodes = [0, 1],
      edges = [\<lparr>source = 0, target = 1\<rparr>, \<lparr>source = 1, target = 0\<rparr>,
               \<lparr>source = 1, target = 1\<rparr>]\<rparr>"



section \<open>Properties\<close>

subsection \<open>Auxiliary facts\<close>

lemmas example_defs =
  example_FILE_TOOLS_def example_NODE_TYPE_MAP_def example_nodes_in_def example_edges_in_def
  node_spec_def edge_spec_def node_data_def no_params_def

lemmas build_defs =
  Graph_init_def build_linked_def build_node_def lc_type_def get_node_class_def Node_init_def
  get_node_def build_node_params_def remove_invalid_nodes_def validate_node_def add_edge_def

lemma example_graph_built:
  "Graph_init example_FILE_TOOLS example_NODE_TYPE_MAP no_params example_nodes_in example_edges_in
     = Inr example_graph"
  by (simp add: example_defs build_defs example_graph_def upt_rec)


lemma nth_update_in_range:
  "r < length h \<Longrightarrow> h[i := x] ! r = (if i = r then x else h ! r)"
  by simp

lemma build_node_Inr:
  assumes "build_node FT NTM spec = Inr n"
  shows "node_edges n = []" and "params n = []" and "getitem spec ''id'' = Inr (node_id n)"
    and "getitem spec ''data'' = Inr (data n)"
  using assms
  by (auto simp: build_node_def Node_init_def split: sum.splits)

lemma build_nodes_length:
  "build_nodes FT NTM specs = Inr h \<Longrightarrow> length h = length specs"
  by (induction specs arbitrary: h) (auto split: sum.splits)

lemma build_nodes_nth:
  "build_nodes FT NTM specs = Inr h \<Longrightarrow> i < length specs \<Longrightarrow>
     build_node FT NTM (specs ! i) = Inr (h ! i)"
proof (induction specs arbitrary: h i)
  case Nil
  then show ?case by simp
next
  case (Cons spec specs)
  then show ?case
    by (cases i) (auto split: sum.splits)
qed

lemma build_nodes_Inl:
  "spec \<in> set specs \<Longrightarrow> build_node FT NTM spec = Inl e \<Longrightarrow>
     \<exists>e'. build_nodes FT NTM specs = Inl e'"
  by (induction specs) (auto split: sum.splits)

lemma get_node_None:
  "get_node g i = None \<longleftrightarrow> (\<forall>r \<in> set (nodes g). node_id (heap g ! r) \<noteq> PStr i)"
  by (auto simp: get_node_def find_None_iff)

lemma get_node_Some_mem:
  "get_node g i = Some r \<Longrightarrow> r \<in> set (nodes g) \<and> node_id (heap g ! r) = PStr i"
  by (auto simp: get_node_def find_Some_iff)

lemma build_edges_Inr:
  "build_edges g es_in = Inr es \<Longrightarrow>
     length es = length es_in \<and> (\<forall>e \<in> set es. source e \<in> set (nodes g) \<and> target e \<in> set (nodes g))"
proof (induction es_in arbitrary: es)
  case Nil
  then show ?case by simp
next
  case (Cons e es_in)
  then show ?case
    by (auto split: option.splits sum.splits dest!: get_node_Some_mem)
qed


lemma link_edges_length [simp]: "length (link_edges es h) = length h"
  by (induction es arbitrary: h) (auto simp: Let_def)

lemma link_edges_nth:
  "r < length h \<Longrightarrow>
     link_edges es h ! r =
       (h ! r)\<lparr>node_edges := node_edges (h ! r) @ concat (map (incident r) es)\<rparr>"
proof (induction es arbitrary: h)
  case Nil
  then show ?case by simp
next
  case (Cons e es)
  let ?h1 = "h[source e := add_edge e (h ! source e)]"
  let ?h2 = "?h1[target e := add_edge e (?h1 ! target e)]"
  have len: "r < length ?h2" using Cons.prems by simp
  have "link_edges (e # es) h ! r = link_edges es ?h2 ! r"
    by (simp add: Let_def)
  also have "\<dots> = (?h2 ! r)\<lparr>node_edges := node_edges (?h2 ! r) @ concat (map (incident r) es)\<rparr>"
    using Cons.IH [OF len] .
  also have "\<dots> = (h ! r)\<lparr>node_edges := node_edges (h ! r) @ concat (map (incident r) (e # es))\<rparr>"
    using Cons.prems by (simp add: add_edge_def incident_def nth_update_in_range)
  finally show ?case .
qed


lemma build_params_loop_length [simp]:
  "length (fst (build_params_loop bp rs h llm)) = length h"
  by (induction rs arbitrary: h llm) (auto simp: Let_def)

lemma build_params_loop_frame:
  "r < length h \<Longrightarrow> \<exists>p. fst (build_params_loop bp rs h llm) ! r = (h ! r)\<lparr>params := p\<rparr>"
proof (induction rs arbitrary: h llm)
  case Nil
  have "h ! r = (h ! r)\<lparr>params := params (h ! r)\<rparr>" by simp
  then show ?case by (metis build_params_loop.simps(1) fst_conv)
next
  case (Cons a rs)
  let ?h = "h[a := (h ! a)\<lparr>params := bp h a\<rparr>]"
  let ?llm = "if cls (?h ! a) = LLMNode then Some a else llm"
  have "r < length ?h" using Cons.prems by simp
  from Cons.IH [OF this, of ?llm]
  obtain p where p: "fst (build_params_loop bp rs ?h ?llm) ! r = (?h ! r)\<lparr>params := p\<rparr>"
    by blast
  have "?h ! r = (if a = r then (h ! r)\<lparr>params := bp h r\<rparr> else h ! r)"
    using Cons.prems by (simp add: nth_update_in_range)
  then have "(?h ! r)\<lparr>params := p\<rparr> = (h ! r)\<lparr>params := p\<rparr>"
    by simp
  with p show ?case by (auto simp: Let_def)
qed

lemma build_params_loop_cls:
  "r < length h \<Longrightarrow> cls (fst (build_params_loop bp rs h llm) ! r) = cls (h ! r)"
  using build_params_loop_frame [of r h bp rs llm] by auto

lemma build_params_loop_node_edges:
  "r < length h \<Longrightarrow> node_edges (fst (build_params_loop bp rs h llm) ! r) = node_edges (h ! r)"
  using build_params_loop_frame [of r h bp rs llm] by auto

lemma build_params_loop_llm:
  "\<forall>r \<in> set rs. r < length h \<Longrightarrow>
     snd (build_params_loop bp rs h llm) =
       (if filter (\<lambda>r. cls (h ! r) = LLMNode) rs = [] then llm
        else Some (last (filter (\<lambda>r. cls (h ! r) = LLMNode) rs)))"
proof (induction rs arbitrary: h llm)
  case Nil
  then show ?case by simp
next
  case (Cons a rs)
  let ?h = "h[a := (h ! a)\<lparr>params := bp h a\<rparr>]"
  let ?llm = "if cls (?h ! a) = LLMNode then Some a else llm"
  have cls_eq: "cls (?h ! r) = cls (h ! r)" if "r < length h" for r
    using that by (simp add: nth_update_in_range)
  have flt: "filter (\<lambda>r. cls (?h ! r) = LLMNode) rs = filter (\<lambda>r. cls (h ! r) = LLMNode) rs"
    by (rule filter_cong) (use Cons.prems in \<open>auto simp: cls_eq\<close>)
  have a: "cls (?h ! a) = cls (h ! a)"
    using Cons.prems by (simp add: cls_eq)
  have "\<forall>r \<in> set rs. r < length ?h" using Cons.prems by simp
  from Cons.IH [OF this, of ?llm] show ?case
    unfolding flt by (simp add: Let_def a)
qed

lemma inject_llm_length [simp]: "length (inject_llm l rs h) = length h"
  by (induction rs arbitrary: h) auto

lemma inject_llm_nth:
  "r < length h \<Longrightarrow>
     inject_llm l rs h ! r =
       (if r \<in> set rs \<and> cls (h ! r) = ToolkitNode
        then (h ! r)\<lparr>params := AList.update ''llm'' (NodeRef l) (params (h ! r))\<rparr>
        else h ! r)"
proof (induction rs arbitrary: h)
  case Nil
  then show ?case by simp
next
  case (Cons a rs)
  let ?h = "if cls (h ! a) = ToolkitNode
        then h[a := (h ! a)\<lparr>params := AList.update ''llm'' (NodeRef l) (params (h ! a))\<rparr>]
        else h"
  have len: "r < length ?h" using Cons.prems by simp
  have upd: "AList.update ''llm'' (NodeRef l) (AList.update ''llm'' (NodeRef l) ps)
      = AList.update ''llm'' (NodeRef l) ps" for ps
    by (simp add: update_last)
  have "inject_llm l (a # rs) h ! r = inject_llm l rs ?h ! r" by simp
  also note Cons.IH [OF len]
  finally show ?case
    using Cons.prems by (auto simp: nth_update_in_range upd)
qed

lemma tally_apply:
  "tally k nb m = (if m = k then Some ((case nb k of None \<Rightarrow> 0 | Some c \<Rightarrow> c) + 1) else nb m)"
  by (auto simp: tally_def Let_def split: option.splits)

lemma neighbors_loop_apply:
  "neighbors_loop n es nb m =
     (let k = length (filter (\<lambda>e. (source e = n \<and> target e = m) \<or> (target e = n \<and> source e = m)) es)
      in if k = 0 then nb m else Some ((case nb m of None \<Rightarrow> 0 | Some c \<Rightarrow> c) + int k))"
proof (induction es arbitrary: nb)
  case Nil
  then show ?case by simp
next
  case (Cons e es)
  show ?case
    by (auto simp: Cons.IH tally_apply Let_def split: option.splits)
qed

lemma build_linked_Inr:
  assumes "build_linked FT NTM nodes_in edges_in = Inr g"
  obtains h es where "build_nodes FT NTM nodes_in = Inr h"
    and "build_edges \<lparr>heap = h, nodes = [0..<length h], edges = []\<rparr> edges_in = Inr es"
    and "g = \<lparr>heap = link_edges es h, nodes = [0..<length h], edges = es\<rparr>"
  using assms by (auto simp: build_linked_def Let_def split: sum.splits)

lemma Graph_init_Inr:
  assumes "Graph_init FT NTM bp nodes_in edges_in = Inr g"
  obtains g0 where "build_linked FT NTM nodes_in edges_in = Inr g0"
    and "g = remove_invalid_nodes (build_node_params bp g0)"
  using assms by (auto simp: Graph_init_def split: sum.splits)

lemma build_node_params_nodes [simp]: "nodes (build_node_params bp g) = nodes g"
  by (simp add: build_node_params_def split: prod.splits option.splits)

lemma build_node_params_edges [simp]: "edges (build_node_params bp g) = edges g"
  by (simp add: build_node_params_def split: prod.splits option.splits)

lemma build_node_params_length [simp]:
  "length (heap (build_node_params bp g)) = length (heap g)"
proof -
  obtain h1 llm where loop: "build_params_loop bp (nodes g) (heap g) None = (h1, llm)"
    by (cases "build_params_loop bp (nodes g) (heap g) None")
  have "length h1 = length (heap g)"
    using build_params_loop_length [of bp "nodes g" "heap g" None] loop by simp
  then show ?thesis
    using loop by (cases llm) (simp_all add: build_node_params_def)
qed

lemma build_node_params_frame:
  assumes "r < length (heap g)"
  shows "\<exists>p. heap (build_node_params bp g) ! r = (heap g ! r)\<lparr>params := p\<rparr>"
proof -
  obtain h1 llm where loop: "build_params_loop bp (nodes g) (heap g) None = (h1, llm)"
    by (cases "build_params_loop bp (nodes g) (heap g) None")
  from build_params_loop_frame [OF assms, of bp "nodes g" None] loop
  obtain p where p: "h1 ! r = (heap g ! r)\<lparr>params := p\<rparr>" by auto
  have len: "r < length h1"
    using build_params_loop_length [of bp "nodes g" "heap g" None] loop assms by simp
  show ?thesis
  proof (cases llm)
    case None
    with loop p show ?thesis by (auto simp: build_node_params_def)
  next
    case (Some l)
    then have "heap (build_node_params bp g) ! r = inject_llm l (nodes g) h1 ! r"
      using loop by (simp add: build_node_params_def)
    also have "\<dots> = (if r \<in> set (nodes g) \<and> cls (h1 ! r) = ToolkitNode
        then (h1 ! r)\<lparr>params := AList.update ''llm'' (NodeRef l) (params (h1 ! r))\<rparr>
        else h1 ! r)"
      using len by (rule inject_llm_nth)
    finally show ?thesis using p by auto
  qed
qed

lemma build_node_params_cls:
  "r < length (heap g) \<Longrightarrow> cls (heap (build_node_params bp g) ! r) = cls (heap g ! r)"
  using build_node_params_frame [of r g bp] by auto

lemma build_node_params_node_edges:
  "r < length (heap g) \<Longrightarrow>
     node_edges (heap (build_node_params bp g) ! r) = node_edges (heap g ! r)"
  using build_node_params_frame [of r g bp] by auto

lemma concat_incident_empty:
  "concat (map (incident r) es) = [] \<longleftrightarrow> \<not> (\<exists>e \<in> set es. source e = r \<or> target e = r)"
  by (auto simp: incident_def)

lemma linked_node_edges:
  assumes "build_nodes FT NTM nodes_in = Inr h" and "r < length h"
  shows "node_edges (link_edges es h ! r) = concat (map (incident r) es)"
proof -
  have "r < length nodes_in" using assms by (simp add: build_nodes_length)
  then have "build_node FT NTM (nodes_in ! r) = Inr (h ! r)"
    using assms(1) by (rule build_nodes_nth [rotated])
  then have "node_edges (h ! r) = []" by (rule build_node_Inr)
  then show ?thesis using assms(2) by (simp add: link_edges_nth)
qed

lemma edge_resolvesD:
  "edge_resolves specs e \<Longrightarrow>
     \<exists>s t. map_of e ''source'' = Some s \<and> map_of e ''target'' = Some t \<and>
           declares_id specs s \<and> declares_id specs t"
  by (cases "map_of e ''source''"; cases "map_of e ''target''") (simp_all add: edge_resolves_def)

lemma declares_id_iff:
  "declares_id specs i \<longleftrightarrow> (\<exists>spec \<in> set specs. getitem spec ''id'' = Inr (PStr i))"
  unfolding declares_id_def by (induction specs) auto

lemma get_node_built:
  assumes "build_nodes FT NTM nodes_in = Inr h"
  shows "get_node \<lparr>heap = h, nodes = [0..<length h], edges = []\<rparr> i = None
           \<longleftrightarrow> \<not> declares_id nodes_in i"
proof -
  have len: "length h = length nodes_in" using assms by (rule build_nodes_length)
  have ids: "getitem (nodes_in ! r) ''id'' = Inr (node_id (h ! r))" if "r < length nodes_in" for r
    using build_nodes_nth [OF assms that] by (rule build_node_Inr)
  have "declares_id nodes_in i \<longleftrightarrow>
      (\<exists>r < length nodes_in. getitem (nodes_in ! r) ''id'' = Inr (PStr i))"
    unfolding declares_id_iff by (metis in_set_conv_nth)
  also have "\<dots> \<longleftrightarrow> (\<exists>r < length nodes_in. node_id (h ! r) = PStr i)"
  proof (intro iffI; elim exE conjE)
    fix r assume "r < length nodes_in" "getitem (nodes_in ! r) ''id'' = Inr (PStr i)"
    then show "\<exists>r < length nodes_in. node_id (h ! r) = PStr i"
      using ids [of r] by (intro exI [of _ r]) simp
  next
    fix r assume "r < length nodes_in" "node_id (h ! r) = PStr i"
    then show "\<exists>r < length nodes_in. getitem (nodes_in ! r) ''id'' = Inr (PStr i)"
      using ids [of r] by (intro exI [of _ r]) simp
  qed
  finally have decl: "declares_id nodes_in i \<longleftrightarrow>
      (\<exists>r < length nodes_in. node_id (h ! r) = PStr i)" .
  have "get_node \<lparr>heap = h, nodes = [0..<length h], edges = []\<rparr> i = None
      \<longleftrightarrow> (\<forall>r < length nodes_in. node_id (h ! r) \<noteq> PStr i)"
    unfolding get_node_None by (auto simp: len)
  with decl show ?thesis by blast
qed

lemma build_edges_first_dangling:
  assumes "\<forall>e' \<in> set pre. \<exists>s' t'. map_of e' ''source'' = Some s' \<and> map_of e' ''target'' = Some t'
             \<and> get_node g s' \<noteq> None \<and> get_node g t' \<noteq> None"
    and "map_of e ''source'' = Some s" and "map_of e ''target'' = Some t"
    and "get_node g s = None \<or> get_node g t = None"
  shows "build_edges g (pre @ e # post) =
           Inl (ValueError (if get_node g s = None then ''Source node '' @ s @ '' not found''
                            else ''Target node '' @ t @ '' not found''))"
  using assms
proof (induction pre)
  case Nil
  then show ?case by (auto split: option.splits)
next
  case (Cons a pre)
  then have "build_edges g (pre @ e # post) =
           Inl (ValueError (if get_node g s = None then ''Source node '' @ s @ '' not found''
                            else ''Target node '' @ t @ '' not found''))"
    by simp
  moreover obtain s' t' where "map_of a ''source'' = Some s'" "map_of a ''target'' = Some t'"
    "get_node g s' \<noteq> None" "get_node g t' \<noteq> None"
    using Cons.prems(1) by auto
  ultimately show ?case by (auto split: option.splits)
qed

lemma build_edges_dangling:
  "e \<in> set es_in \<Longrightarrow> map_of e ''source'' = Some s \<or> map_of e ''target'' = Some s \<Longrightarrow>
     get_node g s = None \<Longrightarrow> \<exists>err. build_edges g es_in = Inl err"
proof (induction es_in)
  case Nil
  then show ?case by simp
next
  case (Cons a es_in)
  show ?case
  proof (cases "a = e")
    case True
    with Cons.prems show ?thesis by (auto split: option.splits sum.splits)
  next
    case False
    with Cons have "\<exists>err. build_edges g es_in = Inl err" by simp
    then show ?thesis by (auto split: option.splits sum.splits)
  qed
qed

lemma Graph_init_nodes_Inl:
  "build_nodes FT NTM nodes_in = Inl e \<Longrightarrow> Graph_init FT NTM bp nodes_in edges_in = Inl e"
  by (simp add: Graph_init_def build_linked_def)

lemma remove_invalid_nodes_heap [simp]: "heap (remove_invalid_nodes g) = heap g"
  by (simp add: remove_invalid_nodes_def)

lemma map_of_update_llm:
  "map_of (AList.update ''llm'' v ps) ''llm'' = Some v"
  by (simp add: update_conv')

lemma build_node_params_heap:
  "build_params_loop bp (nodes g) (heap g) None = (h1, llm) \<Longrightarrow>
     heap (build_node_params bp g) =
       (case llm of None \<Rightarrow> h1 | Some l \<Rightarrow> inject_llm l (nodes g) h1)"
  by (simp add: build_node_params_def split: option.splits)

lemma build_nodes_first_Inl:
  "build_nodes FT NTM pre = Inr h \<Longrightarrow> build_node FT NTM spec = Inl e \<Longrightarrow>
     build_nodes FT NTM (pre @ spec # post) = Inl e"
  by (induction pre arbitrary: h) (auto split: sum.splits)

lemma Graph_init_first_dangling:
  assumes h: "build_nodes FT NTM nodes_in = Inr h"
    and pre: "\<forall>e' \<in> set pre. edge_resolves nodes_in e'"
    and s: "map_of e ''source'' = Some s" and t: "map_of e ''target'' = Some t"
    and miss: "\<not> declares_id nodes_in s \<or> \<not> declares_id nodes_in t"
  shows "Graph_init FT NTM bp nodes_in (pre @ e # post) =
        Inl (ValueError (if \<not> declares_id nodes_in s then ''Source node '' @ s @ '' not found''
                         else ''Target node '' @ t @ '' not found''))"
proof -
  let ?g = "\<lparr>heap = h, nodes = [0..<length h], edges = []\<rparr>"
  note gn = get_node_built [OF h]
  have "\<forall>e' \<in> set pre. \<exists>s' t'. map_of e' ''source'' = Some s' \<and> map_of e' ''target'' = Some t'
             \<and> get_node ?g s' \<noteq> None \<and> get_node ?g t' \<noteq> None"
  proof
    fix e' assume "e' \<in> set pre"
    with pre have "edge_resolves nodes_in e'" by simp
    then show "\<exists>s' t'. map_of e' ''source'' = Some s' \<and> map_of e' ''target'' = Some t'
             \<and> get_node ?g s' \<noteq> None \<and> get_node ?g t' \<noteq> None"
      using edge_resolvesD [of nodes_in e'] by (simp add: gn)
  qed
  moreover have "get_node ?g s = None \<or> get_node ?g t = None"
    using miss by (simp add: gn)
  ultimately have "build_edges ?g (pre @ e # post) =
      Inl (ValueError (if get_node ?g s = None then ''Source node '' @ s @ '' not found''
                       else ''Target node '' @ t @ '' not found''))"
    using s t by (intro build_edges_first_dangling) auto
  then show ?thesis
    using h by (simp add: Graph_init_def build_linked_def gn)
qed

lemma not_edge_resolves:
  "map_of e ''source'' = Some s \<Longrightarrow> map_of e ''target'' = Some t \<Longrightarrow>
     \<not> edge_resolves specs e \<longleftrightarrow> \<not> declares_id specs s \<or> \<not> declares_id specs t"
  by (simp add: edge_resolves_def)

subsection \<open>Claims\<close>

text \<open>
  Claim C1, as the code has it. \<open>_build_nodes\<close> reads \<open>data.node.template._type\<close> of
  every NodeSpec by plain subscripts, before the dispatch. For a NodeSpec with \<open>data\<close>
  and \<open>data.type\<close> whose \<open>data\<close> lacks that path, building the node raises the error of
  the failing subscript, which is \<open>KeyError('node')\<close> when \<open>data\<close> is a mapping
  without \<open>node\<close>; a construction from a list that contains it returns no graph, and
  raises that very error when the NodeSpecs before it build. A NodeSpec with an \<open>id\<close>
  gets the generic Node if \<open>_type\<close> is present and is a string that is not a key of the
  table, and \<open>data.type\<close> is a string that is neither a file-tool name nor a key of the
  table.
\<close>

theorem build_nodes_requires_lc_type:
  "(getitem spec ''data'' = Inr d \<longrightarrow> getitem d ''type'' = Inr ty \<longrightarrow> lc_type d = Inl e \<longrightarrow>
      build_node FT NTM spec = Inl e \<and>
      (spec \<in> set nodes_in \<longrightarrow> (\<exists>e'. Graph_init FT NTM bp nodes_in edges_in = Inl e')) \<and>
      (build_nodes FT NTM pre = Inr h \<longrightarrow>
         Graph_init FT NTM bp (pre @ spec # post) edges_in = Inl e)) \<and>
   (map_of kvs ''node'' = None \<longrightarrow> lc_type (PDict kvs) = Inl (KeyError ''node'')) \<and>
   (getitem spec ''id'' = Inr i \<longrightarrow> getitem spec ''data'' = Inr d \<longrightarrow>
      getitem d ''type'' = Inr (PStr t) \<longrightarrow> lc_type d = Inr (PStr l) \<longrightarrow>
      t \<notin> set FT \<longrightarrow> map_of NTM t = None \<longrightarrow> map_of NTM l = None \<longrightarrow>
      build_node FT NTM spec =
        Inr \<lparr>cls = Node, node_id = i, data = d, params = [], node_edges = []\<rparr>)"
proof (intro conjI impI)
  assume "getitem spec ''data'' = Inr d" "getitem d ''type'' = Inr ty" "lc_type d = Inl e"
  then show b: "build_node FT NTM spec = Inl e"
    by (simp add: build_node_def)
  {
    assume "spec \<in> set nodes_in"
    then obtain e' where "build_nodes FT NTM nodes_in = Inl e'"
      using b build_nodes_Inl by blast
    then show "\<exists>e'. Graph_init FT NTM bp nodes_in edges_in = Inl e'"
      using Graph_init_nodes_Inl by blast
  }
  {
    assume "build_nodes FT NTM pre = Inr h"
    then have "build_nodes FT NTM (pre @ spec # post) = Inl e"
      using b by (rule build_nodes_first_Inl)
    then show "Graph_init FT NTM bp (pre @ spec # post) edges_in = Inl e"
      by (rule Graph_init_nodes_Inl)
  }
next
  assume "map_of kvs ''node'' = None"
  then show "lc_type (PDict kvs) = Inl (KeyError ''node'')"
    by (simp add: lc_type_def)
next
  assume "getitem spec ''id'' = Inr i" "getitem spec ''data'' = Inr d"
    "getitem d ''type'' = Inr (PStr t)" "lc_type d = Inr (PStr l)"
    "t \<notin> set FT" "map_of NTM t = None" "map_of NTM l = None"
  then show "build_node FT NTM spec =
        Inr \<lparr>cls = Node, node_id = i, data = d, params = [], node_edges = []\<rparr>"
    by (simp add: build_node_def get_node_class_def Node_init_def)
qed

text \<open>
  A NodeSpec with \<open>data.type\<close> and no \<open>node\<close> entry: the construction raises
  \<open>KeyError('node')\<close> instead of building a generic node.
\<close>

theorem missing_lc_type_counterexample:
  "getitem (PDict [(''id'', PStr ''A''), (''data'', PDict [(''type'', PStr ''PromptNode'')])]) ''data''
     = Inr (PDict [(''type'', PStr ''PromptNode'')]) \<and>
   getitem (PDict [(''type'', PStr ''PromptNode'')]) ''type'' = Inr (PStr ''PromptNode'') \<and>
   Graph_init example_FILE_TOOLS example_NODE_TYPE_MAP no_params
     [PDict [(''id'', PStr ''A''), (''data'', PDict [(''type'', PStr ''PromptNode'')])]] []
     = Inl (KeyError ''node'')"
  by (simp add: Graph_init_def build_linked_def build_node_def lc_type_def)

text \<open>The NodeSpec without \<open>node\<close> after a well-formed one, and a well-formed
  NodeSpec of an unknown type.\<close>

theorem build_nodes_requires_lc_type_witness:
  "build_node example_FILE_TOOLS example_NODE_TYPE_MAP
     (PDict [(''id'', PStr ''A''), (''data'', PDict [(''type'', PStr ''PromptNode'')])])
     = Inl (KeyError ''node'') \<and>
   Graph_init example_FILE_TOOLS example_NODE_TYPE_MAP no_params
      ([node_spec ''B'' ''JsonToolkit'' ''json_toolkit'' []] @
       PDict [(''id'', PStr ''A''), (''data'', PDict [(''type'', PStr ''PromptNode'')])] # []) []
      = Inl (KeyError ''node'') \<and>
   build_node example_FILE_TOOLS example_NODE_TYPE_MAP
     (node_spec ''C'' ''PromptTemplate'' ''prompt'' [''BasePromptTemplate''])
     = Inr \<lparr>cls = Node, node_id = PStr ''C'',
            data = node_data ''PromptTemplate'' ''prompt'' [''BasePromptTemplate''],
            params = [], node_edges = []\<rparr>"
proof -
  let ?spec = "PDict [(''id'', PStr ''A''), (''data'', PDict [(''type'', PStr ''PromptNode'')])]"
  let ?d = "PDict [(''type'', PStr ''PromptNode'')]"
  let ?h = "[\<lparr>cls = ToolkitNode, node_id = PStr ''B'',
              data = node_data ''JsonToolkit'' ''json_toolkit'' [],
              params = [], node_edges = []\<rparr>]"
  have d: "getitem ?spec ''data'' = Inr ?d" by simp
  have ty: "getitem ?d ''type'' = Inr (PStr ''PromptNode'')" by simp
  have lc: "lc_type ?d = Inl (KeyError ''node'')"
    using build_nodes_requires_lc_type [where kvs = "[(''type'', PStr ''PromptNode'')]",
        THEN conjunct2, THEN conjunct1]
    by simp
  have pre: "build_nodes example_FILE_TOOLS example_NODE_TYPE_MAP
      [node_spec ''B'' ''JsonToolkit'' ''json_toolkit'' []] = Inr ?h"
    by (simp add: example_defs build_node_def lc_type_def get_node_class_def Node_init_def)
  note abs = build_nodes_requires_lc_type [where spec = ?spec and d = ?d
      and ty = "PStr ''PromptNode''" and e = "KeyError ''node''"
      and FT = example_FILE_TOOLS and NTM = example_NODE_TYPE_MAP and bp = no_params
      and pre = "[node_spec ''B'' ''JsonToolkit'' ''json_toolkit'' []]" and h = ?h
      and post = "[]" and edges_in = "[]",
      THEN conjunct1, THEN mp, OF d, THEN mp, OF ty, THEN mp, OF lc]
  note gen = build_nodes_requires_lc_type [where
      spec = "node_spec ''C'' ''PromptTemplate'' ''prompt'' [''BasePromptTemplate'']"
      and d = "node_data ''PromptTemplate'' ''prompt'' [''BasePromptTemplate'']"
      and i = "PStr ''C''" and t = "''PromptTemplate''" and l = "''prompt''"
      and FT = example_FILE_TOOLS and NTM = example_NODE_TYPE_MAP,
      THEN conjunct2, THEN conjunct2]
  have g: "build_node example_FILE_TOOLS example_NODE_TYPE_MAP
     (node_spec ''C'' ''PromptTemplate'' ''prompt'' [''BasePromptTemplate''])
     = Inr \<lparr>cls = Node, node_id = PStr ''C'',
            data = node_data ''PromptTemplate'' ''prompt'' [''BasePromptTemplate''],
            params = [], node_edges = []\<rparr>"
    using gen
    by (simp add: lc_type_def node_spec_def node_data_def example_FILE_TOOLS_def
        example_NODE_TYPE_MAP_def)
  from abs pre g show ?thesis by blast
qed

text \<open>
  Claim C2. After the construction the store holds one Node object per NodeSpec. If
  some of them are LLMNodes, the \<open>params\<close> of every ToolkitNode map \<open>"llm"\<close> to the
  last LLMNode in node-list order. If none is, the store is the one left by the nodes' own
  \<open>_build_params\<close> calls: the injection adds nothing.
\<close>

theorem llm_injected_into_toolkits:
  assumes "Graph_init FT NTM bp nodes_in edges_in = Inr g"
  shows "length (heap g) = length nodes_in \<and>
    (llm_nodes (heap g) \<noteq> [] \<longrightarrow>
       (\<forall>r < length (heap g). cls (heap g ! r) = ToolkitNode \<longrightarrow>
          map_of (params (heap g ! r)) ''llm'' = Some (NodeRef (last (llm_nodes (heap g)))))) \<and>
    (llm_nodes (heap g) = [] \<longrightarrow>
       (\<exists>g0. build_linked FT NTM nodes_in edges_in = Inr g0 \<and>
             heap g = fst (build_params_loop bp (nodes g0) (heap g0) None)))"
proof -
  from assms obtain g0 where g0: "build_linked FT NTM nodes_in edges_in = Inr g0"
    and g: "g = remove_invalid_nodes (build_node_params bp g0)"
    by (rule Graph_init_Inr)
  from g0 obtain h es where h: "build_nodes FT NTM nodes_in = Inr h"
    and g0_eq: "g0 = \<lparr>heap = link_edges es h, nodes = [0..<length h], edges = es\<rparr>"
    by (rule build_linked_Inr)
  let ?h0 = "heap g0"
  have len0: "length ?h0 = length nodes_in"
    using h by (simp add: g0_eq build_nodes_length)
  have nodes0: "nodes g0 = [0..<length ?h0]" by (simp add: g0_eq)
  have heap_g: "heap g = heap (build_node_params bp g0)" by (simp add: g)
  have len: "length (heap g) = length ?h0" by (simp add: heap_g)
  have cls_g: "cls (heap g ! r) = cls (?h0 ! r)" if "r < length ?h0" for r
    using that by (simp add: heap_g build_node_params_cls)
  have llms: "llm_nodes (heap g) = filter (\<lambda>r. cls (?h0 ! r) = LLMNode) (nodes g0)"
    unfolding llm_nodes_def len nodes0 by (rule filter_cong) (auto simp: cls_g)
  obtain h1 llm where loop: "build_params_loop bp (nodes g0) ?h0 None = (h1, llm)"
    by (cases "build_params_loop bp (nodes g0) ?h0 None")
  have hb: "heap g = (case llm of None \<Rightarrow> h1 | Some l \<Rightarrow> inject_llm l (nodes g0) h1)"
    unfolding heap_g using loop by (rule build_node_params_heap)
  have bounded: "\<forall>r \<in> set (nodes g0). r < length ?h0" by (simp add: nodes0)
  have llm: "llm = (if llm_nodes (heap g) = [] then None else Some (last (llm_nodes (heap g))))"
    using build_params_loop_llm [OF bounded, of bp None] loop by (simp add: llms)
  have len1: "length h1 = length ?h0"
    using build_params_loop_length [of bp "nodes g0" ?h0 None] loop by simp
  have cls1: "cls (h1 ! r) = cls (?h0 ! r)" if "r < length ?h0" for r
    using build_params_loop_cls [OF that, of bp "nodes g0" None] loop by simp
  have some: "map_of (params (heap g ! r)) ''llm'' = Some (NodeRef (last (llm_nodes (heap g))))"
    if ne: "llm_nodes (heap g) \<noteq> []" and r: "r < length (heap g)"
      and tk: "cls (heap g ! r) = ToolkitNode" for r
  proof -
    define l where "l = last (llm_nodes (heap g))"
    have r0: "r < length ?h0" using r len by simp
    have llm_some: "llm = Some l" using llm ne by (simp add: l_def)
    have hg: "heap g = inject_llm l (nodes g0) h1"
      by (rule hb [unfolded llm_some option.case])
    have r1: "r < length h1" using r0 len1 by simp
    have mem: "r \<in> set (nodes g0)" using r0 by (simp add: nodes0)
    have tk1: "cls (h1 ! r) = ToolkitNode" using tk cls_g [OF r0] cls1 [OF r0] by simp
    have "inject_llm l (nodes g0) h1 ! r =
        (h1 ! r)\<lparr>params := AList.update ''llm'' (NodeRef l) (params (h1 ! r))\<rparr>"
      using mem tk1 by (simp add: inject_llm_nth [OF r1])
    then have "map_of (params (inject_llm l (nodes g0) h1 ! r)) ''llm'' = Some (NodeRef l)"
      by (simp add: map_of_update_llm)
    then have "map_of (params (heap g ! r)) ''llm'' = Some (NodeRef l)"
      unfolding hg .
    then show ?thesis unfolding l_def .
  qed
  have none: "heap g = fst (build_params_loop bp (nodes g0) ?h0 None)"
    if "llm_nodes (heap g) = []"
  proof -
    have llm_none: "llm = None" using llm that by simp
    have "heap g = h1" by (rule hb [unfolded llm_none option.case])
    then show ?thesis by (simp add: loop)
  qed
  from len len0 some none g0 show ?thesis by auto
qed

text \<open>Two language models around a toolkit: the later one is injected.\<close>

theorem llm_injected_witness:
  "\<exists>g. Graph_init example_FILE_TOOLS example_NODE_TYPE_MAP no_params
          [node_spec ''A'' ''OpenAI'' ''openai'' [''BaseLLM''],
           node_spec ''T'' ''JsonToolkit'' ''json_toolkit'' [''BaseToolkit''],
           node_spec ''D'' ''ChatOpenAI'' ''openai-chat'' [''BaseLLM'']]
          [edge_spec ''A'' ''T'', edge_spec ''D'' ''T''] = Inr g \<and>
       llm_nodes (heap g) = [0, 2] \<and>
       map_of (params (heap g ! 1)) ''llm'' = Some (NodeRef 2)"
proof -
  let ?ns = "[node_spec ''A'' ''OpenAI'' ''openai'' [''BaseLLM''],
           node_spec ''T'' ''JsonToolkit'' ''json_toolkit'' [''BaseToolkit''],
           node_spec ''D'' ''ChatOpenAI'' ''openai-chat'' [''BaseLLM'']]"
  let ?es = "[edge_spec ''A'' ''T'', edge_spec ''D'' ''T'']"
  have "\<exists>g. Graph_init example_FILE_TOOLS example_NODE_TYPE_MAP no_params ?ns ?es = Inr g"
    by (simp add: example_defs build_defs upt_rec)
  then obtain g
    where g: "Graph_init example_FILE_TOOLS example_NODE_TYPE_MAP no_params ?ns ?es = Inr g" ..
  note inst = llm_injected_into_toolkits [OF g]
  have len: "length (heap g) = 3" using inst by simp
  have cls: "cls (heap g ! 0) = LLMNode" "cls (heap g ! 1) = ToolkitNode"
    "cls (heap g ! 2) = LLMNode"
    using g by (auto simp: example_defs build_defs upt_rec)
  have upt3: "[0..<3] = [0, 1, 2::nat]" by code_simp
  have llms: "llm_nodes (heap g) = [0, 2]"
    unfolding llm_nodes_def len upt3 using cls by simp
  have "map_of (params (heap g ! 1)) ''llm'' = Some (NodeRef 2)"
    using inst cls(2) by (simp add: llms len)
  with g llms show ?thesis by blast
qed

text \<open>
  Claim C3. In a constructed graph a node is retained iff some edge of the graph has it
  as an endpoint, or the input is one NodeSpec and no EdgeSpec. One NodeSpec without
  edges keeps its node; two NodeSpecs without edges leave no node.
\<close>

theorem pruning_keeps_connected_or_singleton:
  assumes "Graph_init FT NTM bp nodes_in edges_in = Inr g"
  shows "(\<forall>r. r \<in> set (nodes g) \<longleftrightarrow>
            r < length nodes_in \<and>
            ((\<exists>e \<in> set (edges g). source e = r \<or> target e = r) \<or>
             (length nodes_in = 1 \<and> length edges_in = 0))) \<and>
         (length nodes_in = 1 \<and> length edges_in = 0 \<longrightarrow> nodes g = [0]) \<and>
         (length nodes_in = 2 \<and> length edges_in = 0 \<longrightarrow> nodes g = [])"
proof -
  from assms obtain g0 where g0: "build_linked FT NTM nodes_in edges_in = Inr g0"
    and g: "g = remove_invalid_nodes (build_node_params bp g0)"
    by (rule Graph_init_Inr)
  from g0 obtain h es where h: "build_nodes FT NTM nodes_in = Inr h"
    and es: "build_edges \<lparr>heap = h, nodes = [0..<length h], edges = []\<rparr> edges_in = Inr es"
    and g0_eq: "g0 = \<lparr>heap = link_edges es h, nodes = [0..<length h], edges = es\<rparr>"
    by (rule build_linked_Inr)
  have len_h: "length h = length nodes_in" using h by (rule build_nodes_length)
  have len_es: "length es = length edges_in" using build_edges_Inr [OF es] by simp
  have edges_g: "edges g = es" by (simp add: g g0_eq remove_invalid_nodes_def)
  have valid: "validate_node (build_node_params bp g0) r \<longleftrightarrow>
      (\<exists>e \<in> set es. source e = r \<or> target e = r)" if "r < length h" for r
  proof -
    have "node_edges (heap (build_node_params bp g0) ! r) = node_edges (link_edges es h ! r)"
      using that by (simp add: build_node_params_node_edges g0_eq)
    also have "\<dots> = concat (map (incident r) es)"
      using h that by (rule linked_node_edges)
    finally show ?thesis
      using concat_incident_empty [of r es] by (simp add: validate_node_def)
  qed
  have nodes_g: "nodes g =
      filter (\<lambda>r. (\<exists>e \<in> set es. source e = r \<or> target e = r) \<or>
                  (length nodes_in = 1 \<and> length edges_in = 0)) [0..<length nodes_in]"
  proof -
    have "nodes g = filter (\<lambda>r. validate_node (build_node_params bp g0) r \<or>
        (length nodes_in = 1 \<and> length edges_in = 0)) [0..<length h]"
      by (simp add: g remove_invalid_nodes_def g0_eq len_h len_es)
    also have "\<dots> = filter (\<lambda>r. (\<exists>e \<in> set es. source e = r \<or> target e = r) \<or>
        (length nodes_in = 1 \<and> length edges_in = 0)) [0..<length h]"
      by (rule filter_cong) (auto simp: valid)
    finally show ?thesis by (simp add: len_h)
  qed
  have one: "nodes g = [0]" if "length nodes_in = 1" "length edges_in = 0"
    using that by (simp add: nodes_g)
  have two: "nodes g = []" if "length nodes_in = 2" "length edges_in = 0"
  proof -
    have "es = []" using that len_es by simp
    then show ?thesis using that by (simp add: nodes_g)
  qed
  have iff: "r \<in> set (nodes g) \<longleftrightarrow>
      r < length nodes_in \<and>
      ((\<exists>e \<in> set (edges g). source e = r \<or> target e = r) \<or>
       (length nodes_in = 1 \<and> length edges_in = 0))" for r
    by (auto simp: nodes_g edges_g)
  from iff one two show ?thesis by blast
qed

text \<open>On the example, \<open>B\<close> is retained and \<open>C\<close> is dropped; \<open>C\<close> alone is
  retained; \<open>A\<close> and \<open>C\<close> without edges are both dropped.\<close>

theorem pruning_witness:
  "Graph_init example_FILE_TOOLS example_NODE_TYPE_MAP no_params example_nodes_in example_edges_in
     = Inr example_graph \<and>
   1 \<in> set (nodes example_graph) \<and> 2 \<notin> set (nodes example_graph) \<and>
   (\<exists>g. Graph_init example_FILE_TOOLS example_NODE_TYPE_MAP no_params
          [node_spec ''C'' ''PromptTemplate'' ''prompt'' [''BasePromptTemplate'']] [] = Inr g \<and>
        nodes g = [0]) \<and>
   (\<exists>g. Graph_init example_FILE_TOOLS example_NODE_TYPE_MAP no_params
          [node_spec ''A'' ''OpenAI'' ''openai'' [''BaseLLM''],
           node_spec ''C'' ''PromptTemplate'' ''prompt'' [''BasePromptTemplate'']] [] = Inr g \<and>
        nodes g = [])"
proof -
  let ?A = "node_spec ''A'' ''OpenAI'' ''openai'' [''BaseLLM'']"
  let ?C = "node_spec ''C'' ''PromptTemplate'' ''prompt'' [''BasePromptTemplate'']"
  have three: "1 \<in> set (nodes example_graph) \<and> 2 \<notin> set (nodes example_graph)"
    using pruning_keeps_connected_or_singleton [OF example_graph_built]
    by (simp add: example_graph_def example_nodes_in_def)
  have "\<exists>g. Graph_init example_FILE_TOOLS example_NODE_TYPE_MAP no_params [?C] [] = Inr g"
    by (simp add: example_defs build_defs)
  then obtain g1
    where g1: "Graph_init example_FILE_TOOLS example_NODE_TYPE_MAP no_params [?C] [] = Inr g1" ..
  have one: "nodes g1 = [0]"
    using pruning_keeps_connected_or_singleton [OF g1] by simp
  have "\<exists>g. Graph_init example_FILE_TOOLS example_NODE_TYPE_MAP no_params [?A, ?C] [] = Inr g"
    by (simp add: example_defs build_defs)
  then obtain g2
    where g2: "Graph_init example_FILE_TOOLS example_NODE_TYPE_MAP no_params [?A, ?C] [] = Inr g2" ..
  have two: "nodes g2 = []"
    using pruning_keeps_connected_or_singleton [OF g2] by simp
  from example_graph_built three g1 one g2 two show ?thesis by blast
qed

text \<open>
  Claim C4, as the code has it. The nodes are built before the edges, so the claim needs
  NodeSpecs that build. Then: the first EdgeSpec with an end that is the id of no
  NodeSpec, after EdgeSpecs that resolve, makes the construction raise the ValueError
  that names the missing source, or else the missing target; if every EdgeSpec carries
  \<open>source\<close> and \<open>target\<close> and one of them does not resolve, the construction raises
  such a ValueError for a missing id of an EdgeSpec. The two messages differ. For every
  input, an EdgeSpec naming an id of no NodeSpec makes the construction raise: it is
  never skipped and no graph is returned.
\<close>

theorem dangling_edge_raises:
  "(build_nodes FT NTM nodes_in = Inr h \<longrightarrow>
      (\<forall>e' \<in> set pre. edge_resolves nodes_in e') \<longrightarrow>
      map_of e ''source'' = Some s \<longrightarrow> map_of e ''target'' = Some t \<longrightarrow>
      \<not> declares_id nodes_in s \<or> \<not> declares_id nodes_in t \<longrightarrow>
      Graph_init FT NTM bp nodes_in (pre @ e # post) =
        Inl (ValueError (if \<not> declares_id nodes_in s then ''Source node '' @ s @ '' not found''
                         else ''Target node '' @ t @ '' not found''))) \<and>
   (build_nodes FT NTM nodes_in = Inr h \<longrightarrow>
      (\<forall>e' \<in> set edges_in. map_of e' ''source'' \<noteq> None \<and> map_of e' ''target'' \<noteq> None) \<longrightarrow>
      (\<exists>e' \<in> set edges_in. \<not> edge_resolves nodes_in e') \<longrightarrow>
      (\<exists>e' \<in> set edges_in. \<exists>s' t'.
          map_of e' ''source'' = Some s' \<and> map_of e' ''target'' = Some t' \<and>
          (\<not> declares_id nodes_in s' \<and>
             Graph_init FT NTM bp nodes_in edges_in =
               Inl (ValueError (''Source node '' @ s' @ '' not found'')) \<or>
           \<not> declares_id nodes_in t' \<and>
             Graph_init FT NTM bp nodes_in edges_in =
               Inl (ValueError (''Target node '' @ t' @ '' not found''))))) \<and>
   (e \<in> set edges_in \<longrightarrow> map_of e ''source'' = Some s \<or> map_of e ''target'' = Some s \<longrightarrow>
      \<not> declares_id nodes_in s \<longrightarrow>
      (\<exists>err. Graph_init FT NTM bp nodes_in edges_in = Inl err)) \<and>
   ValueError (''Source node '' @ s @ '' not found'') \<noteq> ValueError (''Target node '' @ t @ '' not found'')"
proof (intro conjI impI)
  assume "build_nodes FT NTM nodes_in = Inr h"
    "\<forall>e' \<in> set pre. edge_resolves nodes_in e'"
    "map_of e ''source'' = Some s" "map_of e ''target'' = Some t"
    "\<not> declares_id nodes_in s \<or> \<not> declares_id nodes_in t"
  then show "Graph_init FT NTM bp nodes_in (pre @ e # post) =
        Inl (ValueError (if \<not> declares_id nodes_in s then ''Source node '' @ s @ '' not found''
                         else ''Target node '' @ t @ '' not found''))"
    by (rule Graph_init_first_dangling)
next
  assume h: "build_nodes FT NTM nodes_in = Inr h"
    and keys: "\<forall>e' \<in> set edges_in. map_of e' ''source'' \<noteq> None \<and> map_of e' ''target'' \<noteq> None"
    and dang: "\<exists>e' \<in> set edges_in. \<not> edge_resolves nodes_in e'"
  from split_list_first_prop [OF dang]
  obtain ys x zs where split: "edges_in = ys @ x # zs" and x: "\<not> edge_resolves nodes_in x"
    and ys: "\<forall>y \<in> set ys. \<not> \<not> edge_resolves nodes_in y"
    by blast
  have xin: "x \<in> set edges_in" by (simp add: split)
  with keys obtain s' t' where s': "map_of x ''source'' = Some s'"
    and t': "map_of x ''target'' = Some t'"
    by auto
  have miss: "\<not> declares_id nodes_in s' \<or> \<not> declares_id nodes_in t'"
    using x not_edge_resolves [OF s' t'] by simp
  have pre: "\<forall>e' \<in> set ys. edge_resolves nodes_in e'" using ys by simp
  have res: "Graph_init FT NTM bp nodes_in edges_in =
        Inl (ValueError (if \<not> declares_id nodes_in s' then ''Source node '' @ s' @ '' not found''
                         else ''Target node '' @ t' @ '' not found''))"
    unfolding split using h pre s' t' miss by (rule Graph_init_first_dangling)
  have "\<not> declares_id nodes_in s' \<and>
             Graph_init FT NTM bp nodes_in edges_in =
               Inl (ValueError (''Source node '' @ s' @ '' not found'')) \<or>
           \<not> declares_id nodes_in t' \<and>
             Graph_init FT NTM bp nodes_in edges_in =
               Inl (ValueError (''Target node '' @ t' @ '' not found''))"
  proof (cases "declares_id nodes_in s'")
    case True
    with miss res show ?thesis by simp
  next
    case False
    with res show ?thesis by simp
  qed
  with xin s' t' show "\<exists>e' \<in> set edges_in. \<exists>s' t'.
          map_of e' ''source'' = Some s' \<and> map_of e' ''target'' = Some t' \<and>
          (\<not> declares_id nodes_in s' \<and>
             Graph_init FT NTM bp nodes_in edges_in =
               Inl (ValueError (''Source node '' @ s' @ '' not found'')) \<or>
           \<not> declares_id nodes_in t' \<and>
             Graph_init FT NTM bp nodes_in edges_in =
               Inl (ValueError (''Target node '' @ t' @ '' not found'')))"
    by blast
next
  assume e: "e \<in> set edges_in"
    and st: "map_of e ''source'' = Some s \<or> map_of e ''target'' = Some s"
    and miss: "\<not> declares_id nodes_in s"
  show "\<exists>err. Graph_init FT NTM bp nodes_in edges_in = Inl err"
  proof (cases "build_nodes FT NTM nodes_in")
    case (Inl err)
    then show ?thesis by (simp add: Graph_init_def build_linked_def)
  next
    case (Inr h)
    let ?g = "\<lparr>heap = h, nodes = [0..<length h], edges = []\<rparr>"
    have "get_node ?g s = None" using miss by (simp add: get_node_built [OF Inr])
    with e st obtain err where "build_edges ?g edges_in = Inl err"
      using build_edges_dangling by blast
    then show ?thesis using Inr by (simp add: Graph_init_def build_linked_def)
  qed
next
  show "ValueError (''Source node '' @ s @ '' not found'') \<noteq> ValueError (''Target node '' @ t @ '' not found'')"
    by simp
qed

text \<open>
  A NodeSpec without \<open>data.node\<close> and an edge to the undeclared id \<open>Z\<close>: the
  construction raises \<open>KeyError('node')\<close>, which names no id.
\<close>

theorem dangling_edge_counterexample:
  "map_of (edge_spec ''A'' ''Z'') ''target'' = Some ''Z'' \<and>
   \<not> declares_id [PDict [(''id'', PStr ''A''), (''data'', PDict [(''type'', PStr ''PromptNode'')])]] ''Z'' \<and>
   Graph_init example_FILE_TOOLS example_NODE_TYPE_MAP no_params
     [PDict [(''id'', PStr ''A''), (''data'', PDict [(''type'', PStr ''PromptNode'')])]]
     [edge_spec ''A'' ''Z'']
     = Inl (KeyError ''node'')"
  by (simp add: edge_spec_def declares_id_def Graph_init_def build_linked_def build_node_def
      lc_type_def)

text \<open>A missing target after a good edge, and a missing source.\<close>

theorem dangling_edge_witness:
  "Graph_init example_FILE_TOOLS example_NODE_TYPE_MAP no_params example_nodes_in
     ([edge_spec ''A'' ''B''] @ edge_spec ''A'' ''Z'' # [edge_spec ''Y'' ''B''])
     = Inl (ValueError ''Target node Z not found'') \<and>
   Graph_init example_FILE_TOOLS example_NODE_TYPE_MAP no_params example_nodes_in
     ([] @ edge_spec ''Y'' ''Z'' # [])
     = Inl (ValueError ''Source node Y not found'')"
proof -
  let ?h = "[\<lparr>cls = LLMNode, node_id = PStr ''A'', data = node_data ''OpenAI'' ''openai'' [''BaseLLM''],
       params = [], node_edges = []\<rparr>,
      \<lparr>cls = ToolkitNode, node_id = PStr ''B'',
       data = node_data ''JsonToolkit'' ''json_toolkit'' [''BaseToolkit''],
       params = [], node_edges = []\<rparr>,
      \<lparr>cls = Node, node_id = PStr ''C'',
       data = node_data ''PromptTemplate'' ''prompt'' [''BasePromptTemplate''],
       params = [], node_edges = []\<rparr>]"
  have h: "build_nodes example_FILE_TOOLS example_NODE_TYPE_MAP example_nodes_in = Inr ?h"
    by (simp add: example_defs build_node_def lc_type_def get_node_class_def Node_init_def)
  have ids: "declares_id example_nodes_in ''A''" "declares_id example_nodes_in ''B''"
    "\<not> declares_id example_nodes_in ''Z''" "\<not> declares_id example_nodes_in ''Y''"
    by (simp_all add: declares_id_def example_defs)
  have pre1: "\<forall>e' \<in> set [edge_spec ''A'' ''B'']. edge_resolves example_nodes_in e'"
    using ids by (simp add: edge_resolves_def edge_spec_def)
  have pre2: "\<forall>e' \<in> set []. edge_resolves example_nodes_in e'" by simp
  have az: "map_of (edge_spec ''A'' ''Z'') ''source'' = Some ''A''"
    "map_of (edge_spec ''A'' ''Z'') ''target'' = Some ''Z''"
    by (simp_all add: edge_spec_def)
  have yz: "map_of (edge_spec ''Y'' ''Z'') ''source'' = Some ''Y''"
    "map_of (edge_spec ''Y'' ''Z'') ''target'' = Some ''Z''"
    by (simp_all add: edge_spec_def)
  have m1: "\<not> declares_id example_nodes_in ''A'' \<or> \<not> declares_id example_nodes_in ''Z''"
    using ids by simp
  have m2: "\<not> declares_id example_nodes_in ''Y'' \<or> \<not> declares_id example_nodes_in ''Z''"
    using ids by simp
  note first = dangling_edge_raises [where FT = example_FILE_TOOLS and NTM = example_NODE_TYPE_MAP
        and nodes_in = example_nodes_in and pre = "[edge_spec ''A'' ''B'']"
        and e = "edge_spec ''A'' ''Z''" and post = "[edge_spec ''Y'' ''B'']"
        and s = "''A''" and t = "''Z''" and bp = no_params and h = ?h,
        THEN conjunct1, THEN mp, OF h, THEN mp, OF pre1, THEN mp, OF az(1), THEN mp, OF az(2),
        THEN mp, OF m1]
  note second = dangling_edge_raises [where FT = example_FILE_TOOLS and NTM = example_NODE_TYPE_MAP
        and nodes_in = example_nodes_in and pre = "[]"
        and e = "edge_spec ''Y'' ''Z''" and post = "[]"
        and s = "''Y''" and t = "''Z''" and bp = no_params and h = ?h,
        THEN conjunct1, THEN mp, OF h, THEN mp, OF pre2, THEN mp, OF yz(1), THEN mp, OF yz(2),
        THEN mp, OF m2]
  from first second ids show ?thesis by simp
qed

text \<open>
  Claim C5. On two strings \<open>_get_node_class\<close> never raises. A file-tool type name gives
  FileToolNode; otherwise a key of the table gives its entry; otherwise a fallback type
  that is a key of the table gives that entry; otherwise the result is the generic Node.
\<close>

theorem get_node_class_precedence:
  "(t \<in> set FT \<longrightarrow> get_node_class FT NTM (PStr t) (PStr l) = Inr FileToolNode) \<and>
   (t \<notin> set FT \<longrightarrow> map_of NTM t = Some c \<longrightarrow>
      get_node_class FT NTM (PStr t) (PStr l) = Inr c) \<and>
   (t \<notin> set FT \<longrightarrow> map_of NTM t = None \<longrightarrow> map_of NTM l = Some c \<longrightarrow>
      get_node_class FT NTM (PStr t) (PStr l) = Inr c) \<and>
   (t \<notin> set FT \<longrightarrow> map_of NTM t = None \<longrightarrow> map_of NTM l = None \<longrightarrow>
      get_node_class FT NTM (PStr t) (PStr l) = Inr Node) \<and>
   (\<exists>c'. get_node_class FT NTM (PStr t) (PStr l) = Inr c')"
  by (auto simp: get_node_class_def split: option.splits)

text \<open>The four branches on the example tables.\<close>

theorem get_node_class_precedence_witness:
  "get_node_class example_FILE_TOOLS example_NODE_TYPE_MAP (PStr ''JsonSpec'') (PStr ''OpenAI'')
     = Inr FileToolNode \<and>
   get_node_class example_FILE_TOOLS example_NODE_TYPE_MAP (PStr ''JsonToolkit'') (PStr ''OpenAI'')
     = Inr ToolkitNode \<and>
   get_node_class example_FILE_TOOLS example_NODE_TYPE_MAP (PStr ''Custom'') (PStr ''OpenAI'')
     = Inr LLMNode \<and>
   get_node_class example_FILE_TOOLS example_NODE_TYPE_MAP (PStr ''Custom'') (PStr ''custom'')
     = Inr Node"
  using get_node_class_precedence [where t = "''JsonSpec''" and FT = example_FILE_TOOLS
      and NTM = example_NODE_TYPE_MAP and l = "''OpenAI''" and c = Node]
    get_node_class_precedence [where t = "''JsonToolkit''" and FT = example_FILE_TOOLS
      and NTM = example_NODE_TYPE_MAP and l = "''OpenAI''" and c = ToolkitNode]
    get_node_class_precedence [where t = "''Custom''" and FT = example_FILE_TOOLS
      and NTM = example_NODE_TYPE_MAP and l = "''OpenAI''" and c = LLMNode]
    get_node_class_precedence [where t = "''Custom''" and FT = example_FILE_TOOLS
      and NTM = example_NODE_TYPE_MAP and l = "''custom''" and c = Node]
  by (simp add: example_FILE_TOOLS_def example_NODE_TYPE_MAP_def)

text \<open>
  Claim C6. The mapping returned for \<open>n\<close> has an entry for \<open>m\<close> exactly when some edge
  touches \<open>n\<close> with \<open>m\<close> at the other end, and the entry is the number of these edges,
  parallel ones included.
\<close>

theorem get_node_neighbors_counts:
  "get_node_neighbors g n m =
     (if edges_between g n m = [] then None else Some (int (length (edges_between g n m))))"
  by (simp add: get_node_neighbors_def edges_between_def neighbors_loop_apply Let_def)

text \<open>Two edges join \<open>A\<close> and \<open>B\<close>; none touches \<open>C\<close>.\<close>

theorem get_node_neighbors_witness:
  "get_node_neighbors example_graph 0 1 = Some 2 \<and> get_node_neighbors example_graph 0 2 = None"
  using get_node_neighbors_counts [of example_graph 0 1]
    get_node_neighbors_counts [of example_graph 0 2]
  by (simp add: example_graph_def edges_between_def)

text \<open>
  Claim C7. Pruning replaces the node list only: the edge list and the store of Node
  objects are the same before and after, so every edge is still there and still refers
  to the same two objects, pruned or not.
\<close>

theorem remove_invalid_nodes_frame:
  "edges (remove_invalid_nodes g) = edges g \<and> heap (remove_invalid_nodes g) = heap g"
  by (simp add: remove_invalid_nodes_def)




text \<open>
  Claim C9. \<open>get_node\<close> is a total lookup: it returns None when no node of the list has
  the id, and the first node of the list with the id otherwise.
\<close>

theorem get_node_first_match:
  "((\<forall>r \<in> set (nodes g). node_id (heap g ! r) \<noteq> PStr i) \<longrightarrow> get_node g i = None) \<and>
   (k < length (nodes g) \<longrightarrow> node_id (heap g ! (nodes g ! k)) = PStr i \<longrightarrow>
      (\<forall>j < k. node_id (heap g ! (nodes g ! j)) \<noteq> PStr i) \<longrightarrow>
      get_node g i = Some (nodes g ! k))"
proof (intro conjI impI)
  assume "\<forall>r \<in> set (nodes g). node_id (heap g ! r) \<noteq> PStr i"
  then show "get_node g i = None" by (simp add: get_node_None)
next
  assume "k < length (nodes g)" "node_id (heap g ! (nodes g ! k)) = PStr i"
    "\<forall>j < k. node_id (heap g ! (nodes g ! j)) \<noteq> PStr i"
  then show "get_node g i = Some (nodes g ! k)"
    unfolding get_node_def find_Some_iff by blast
qed

text \<open>On the example graph.\<close>

theorem get_node_witness:
  "get_node example_graph ''B'' = Some 1 \<and> get_node example_graph ''C'' = None"
  using get_node_first_match [of example_graph "''C''"]
    get_node_first_match [of example_graph "''B''" 1]
  by (simp add: example_graph_def less_Suc_eq)

text \<open>
  Claim C10. An edge from \<open>n\<close> to \<open>n\<close> takes the source branch only: the count of
  \<open>n\<close> among its own neighbours is the number of its self-loops, one per edge.
\<close>

theorem self_loop_counted_once:
  "get_node_neighbors g n n =
     (if self_loops g n = [] then None else Some (int (length (self_loops g n))))"
proof -
  have "filter (\<lambda>e. (source e = n \<and> target e = n) \<or> (target e = n \<and> source e = n)) (edges g)
      = self_loops g n"
    unfolding self_loops_def by (rule filter_cong) auto
  then show ?thesis
    by (simp add: get_node_neighbors_def neighbors_loop_apply Let_def)
qed

text \<open>The loop at \<open>B\<close>.\<close>

theorem self_loop_witness:
  "get_node_neighbors example_graph 1 1 = Some 1"
  using self_loop_counted_once [of example_graph 1]
  by (simp add: example_graph_def self_loops_def)

end
